theory Spec2Isabelle
  imports Main "HOL-Library.Word" "HOL-Library.Sublist"
begin

section \<open>JavaScript values used by the chat component\<close>

text \<open>
  A JavaScript string is a sequence of UTF-16 code units. String literals of the
  component are ASCII; \<open>js\<close> turns an ASCII literal into its code units.
\<close>

type_synonym jsstring = "16 word list"

definition js :: "string \<Rightarrow> jsstring" where
  "js s = map of_char s"

text \<open>
  \<^verbatim>\<open>String.prototype.trim\<close> strips the ECMAScript WhiteSpace and LineTerminator code
  points from both ends: TAB, LF, VT, FF, CR, SP, NBSP, U+1680, U+2000 to U+200A,
  U+2028, U+2029, U+202F, U+205F, U+3000 and U+FEFF.
\<close>

definition is_whitespace :: "16 word \<Rightarrow> bool" where
  "is_whitespace c =
     (c \<in> set [9, 10, 11, 12, 13, 32, 160, 5760,
                8192, 8193, 8194, 8195, 8196, 8197, 8198, 8199, 8200, 8201, 8202,
                8232, 8233, 8239, 8287, 12288, 65279])"

definition trim :: "jsstring \<Rightarrow> jsstring" where
  "trim s = rev (dropWhile is_whitespace (rev (dropWhile is_whitespace s)))"

text \<open>
  \<^verbatim>\<open>Number.prototype.toString\<close> on an integer: its decimal digits, with a leading
  minus sign when negative. The component applies it to \<^verbatim>\<open>Date.now()\<close> and, inside a
  template literal, to \<^verbatim>\<open>response.status\<close>.
\<close>

definition digit :: "nat \<Rightarrow> 16 word" where
  "digit d = of_nat (48 + d)"

fun digits :: "nat \<Rightarrow> jsstring" where
  "digits n = (if n < 10 then [digit n] else digits (n div 10) @ [digit (n mod 10)])"

declare digits.simps [simp del]

definition toString :: "int \<Rightarrow> jsstring" where
  "toString i = (if i < 0 then js ''-'' @ digits (nat (- i)) else digits (nat i))"

text \<open>
  The values \<^verbatim>\<open>response.json()\<close> can produce. A number is kept as its literal text,
  since the component never computes with it. An object keeps its members in the order
  of the response text, duplicates included.
\<close>

datatype json =
    JNull
  | JBool bool
  | JNum string
  | JStr jsstring
  | JArr "json list"
  | JObj "(jsstring \<times> json) list"

text \<open>What a property read can give: \<^verbatim>\<open>undefined\<close>, or a value.\<close>

datatype jsval = Undefined | Val json

text \<open>A thrown or rejected error, as far as the component looks at it: its \<^verbatim>\<open>message\<close>.\<close>

datatype js_error = Error (message: jsstring)

text \<open>
  \<^verbatim>\<open>data.response\<close> for a parsed body \<^verbatim>\<open>data\<close>. Reading a property of \<^verbatim>\<open>null\<close> throws a
  TypeError (the message is V8's). \<^verbatim>\<open>JSON.parse\<close> keeps the last of several members with
  the same key. Booleans, numbers, strings and arrays have no property of that name.
\<close>

definition null_read_error :: js_error where
  "null_read_error = Error (js ''Cannot read properties of null (reading 'response')'')"

fun get_response :: "json \<Rightarrow> js_error + jsval" where
  "get_response JNull = Inl null_read_error"
| "get_response (JObj members) =
     (case map_of (rev members) (js ''response'') of
        None \<Rightarrow> Inr Undefined
      | Some v \<Rightarrow> Inr (Val v))"
| "get_response _ = Inr Undefined"

section \<open>The endpoint URL\<close>

text \<open>
  \<^verbatim>\<open>API_URL.replace(/\/$/, '')\<close>: the regular expression is tried at each position from
  the left; it matches a slash that is the last code unit, and the first match is
  replaced by the empty string.
\<close>

fun replace_trailing_slash :: "jsstring \<Rightarrow> jsstring" where
  "replace_trailing_slash [] = []"
| "replace_trailing_slash (c # cs) =
     (if c = of_char CHR ''/'' \<and> cs = [] then [] else c # replace_trailing_slash cs)"

text \<open>
  \<^verbatim>\<open>process.env.NEXT_PUBLIC_API_URL || 'http://127.0.0.1:8000'\<close>: the variable is a
  string or undefined (\<open>None\<close>); undefined and the empty string are falsy.
\<close>

definition API_URL :: "jsstring option \<Rightarrow> jsstring" where
  "API_URL env =
     (case env of
        None \<Rightarrow> js ''http://127.0.0.1:8000''
      | Some v \<Rightarrow> if v = [] then js ''http://127.0.0.1:8000'' else v)"

definition getApiUrl :: "jsstring option \<Rightarrow> jsstring" where
  "getApiUrl env = replace_trailing_slash (API_URL env) @ js ''/chat''"

section \<open>The component's data\<close>

text \<open>
  The \<^verbatim>\<open>Message\<close> interface. TypeScript declares \<^verbatim>\<open>text\<close> a string, but the bot message
  takes it from the untyped response, so at run time it is whatever \<^verbatim>\<open>data.response\<close>
  is. A \<^verbatim>\<open>Date\<close> is its milliseconds since the epoch.
\<close>

record message =
  msg_id :: jsstring
  msg_text :: jsval
  isUser :: bool
  timestamp :: int

text \<open>The four \<^verbatim>\<open>useState\<close> cells the handlers read and write.\<close>

record state =
  messages :: "message list"
  inputMessage :: jsstring
  isLoading :: bool
  error :: "jsstring option"

text \<open>
  The clock as a handler sees it: what \<^verbatim>\<open>Date.now()\<close> returns and what \<^verbatim>\<open>new Date()\<close>
  holds when it builds a message.
\<close>

record tick =
  date_now :: int
  new_date :: int

text \<open>
  The argument of \<^verbatim>\<open>fetch\<close>. The \<open>body\<close> is the value handed to \<^verbatim>\<open>JSON.stringify\<close>.
\<close>

record request =
  url :: jsstring
  http_method :: jsstring
  headers :: "(jsstring \<times> jsstring) list"
  body :: json

text \<open>
  What \<^verbatim>\<open>fetch\<close> settles with: a rejection, or a response with its status and the
  outcome of \<^verbatim>\<open>response.json()\<close> (a rejection when the body is not JSON).
\<close>

record response =
  status :: nat
  json_body :: "js_error + json"

definition ok :: "response \<Rightarrow> bool" where
  "ok r = (200 \<le> status r \<and> status r \<le> 299)"

datatype fetch_outcome = Rejected js_error | Resolved response

section \<open>State updates\<close>

text \<open>
  The calls of the \<^verbatim>\<open>useState\<close> setters, in the order a handler makes them.
  \<open>AppendMessage m\<close> is \<^verbatim>\<open>setMessages(prev => [...prev, m])\<close> and \<open>ResetMessages\<close> is
  \<^verbatim>\<open>setMessages([])\<close>.
\<close>

datatype update =
    AppendMessage message
  | ResetMessages
  | SetInputMessage jsstring
  | SetIsLoading bool
  | SetError "jsstring option"

fun apply_update :: "state \<Rightarrow> update \<Rightarrow> state" where
  "apply_update s (AppendMessage m) = s\<lparr>messages := messages s @ [m]\<rparr>"
| "apply_update s ResetMessages = s\<lparr>messages := []\<rparr>"
| "apply_update s (SetInputMessage v) = s\<lparr>inputMessage := v\<rparr>"
| "apply_update s (SetIsLoading b) = s\<lparr>isLoading := b\<rparr>"
| "apply_update s (SetError e) = s\<lparr>error := e\<rparr>"

definition apply_updates :: "update list \<Rightarrow> state \<Rightarrow> state" where
  "apply_updates us s = foldl apply_update s us"

section \<open>sendMessage\<close>

definition userMessage :: "tick \<Rightarrow> state \<Rightarrow> message" where
  "userMessage t s =
     \<lparr>msg_id = toString (date_now t), msg_text = Val (JStr (inputMessage s)),
      isUser = True, timestamp = new_date t\<rparr>"

definition chat_request :: "jsstring option \<Rightarrow> state \<Rightarrow> request" where
  "chat_request env s =
     \<lparr>url = getApiUrl env, http_method = js ''POST'',
      headers = [(js ''Content-Type'', js ''application/json'')],
      body = JObj [(js ''message'', JStr (inputMessage s))]\<rparr>"

definition begin_updates :: "tick \<Rightarrow> state \<Rightarrow> update list" where
  "begin_updates t s =
     [AppendMessage (userMessage t s), SetInputMessage [], SetIsLoading True, SetError None]"

text \<open>
  The handler up to the \<^verbatim>\<open>await fetch\<close>: the guard, the user message, the four setter
  calls and the request, which carries the \<^verbatim>\<open>inputMessage\<close> of the render the handler
  closed over. \<open>None\<close> for the request is the early \<^verbatim>\<open>return\<close>: no call is made.
\<close>

definition sendMessage_begin :: "jsstring option \<Rightarrow> tick \<Rightarrow> state \<Rightarrow> state \<times> request option" where
  "sendMessage_begin env t s =
     (if trim (inputMessage s) = [] \<or> isLoading s then (s, None)
      else (apply_updates (begin_updates t s) s, Some (chat_request env s)))"

definition botMessage :: "tick \<Rightarrow> jsval \<Rightarrow> message" where
  "botMessage t v =
     \<lparr>msg_id = toString (date_now t + 1), msg_text = v, isUser = False,
      timestamp = new_date t\<rparr>"

definition apology :: jsstring where
  "apology = js ''Sorry, I encountered an error. Please try again.''"

definition errorMessage :: "tick \<Rightarrow> message" where
  "errorMessage t =
     \<lparr>msg_id = toString (date_now t + 1), msg_text = Val (JStr apology), isUser = False,
      timestamp = new_date t\<rparr>"

text \<open>
  The body of the \<^verbatim>\<open>try\<close> after the \<^verbatim>\<open>await\<close>: \<open>Inl\<close> is what it throws, \<open>Inr\<close> the bot
  message it builds.
\<close>

definition try_block :: "tick \<Rightarrow> fetch_outcome \<Rightarrow> js_error + message" where
  "try_block t outcome =
     (case outcome of
        Rejected e \<Rightarrow> Inl e
      | Resolved r \<Rightarrow>
          if \<not> ok r then Inl (Error (js ''HTTP error! status: '' @ toString (int (status r))))
          else (case json_body r of
                  Inl e \<Rightarrow> Inl e
                | Inr data \<Rightarrow>
                    (case get_response data of
                       Inl e \<Rightarrow> Inl e
                     | Inr v \<Rightarrow> Inr (botMessage t v))))"

text \<open>\<^verbatim>\<open>'Failed to send message: ' + (err.message || 'Check console')\<close>\<close>

definition error_text :: "js_error \<Rightarrow> jsstring" where
  "error_text e =
     js ''Failed to send message: '' @ (if message e = [] then js ''Check console'' else message e)"

text \<open>The setter calls after the \<^verbatim>\<open>await\<close>: the \<^verbatim>\<open>try\<close> or the \<^verbatim>\<open>catch\<close>, then the \<^verbatim>\<open>finally\<close>.\<close>

definition settle_updates :: "tick \<Rightarrow> fetch_outcome \<Rightarrow> update list" where
  "settle_updates t outcome =
     (case try_block t outcome of
        Inr m \<Rightarrow> [AppendMessage m]
      | Inl e \<Rightarrow> [SetError (Some (error_text e)), AppendMessage (errorMessage t)])
     @ [SetIsLoading False]"

definition sendMessage_settle :: "tick \<Rightarrow> fetch_outcome \<Rightarrow> state \<Rightarrow> state" where
  "sendMessage_settle t outcome s = apply_updates (settle_updates t outcome) s"

text \<open>
  One whole exchange with nothing else happening in between: \<open>fetch\<close> is the endpoint,
  \<open>t1\<close> the clock at the submission and \<open>t2\<close> the clock at the settlement.
\<close>

definition sendMessage ::
  "jsstring option \<Rightarrow> (request \<Rightarrow> fetch_outcome) \<Rightarrow> tick \<Rightarrow> tick \<Rightarrow> state \<Rightarrow> state" where
  "sendMessage env fetch t1 t2 s =
     (case sendMessage_begin env t1 s of
        (s1, None) \<Rightarrow> s1
      | (s1, Some req) \<Rightarrow> sendMessage_settle t2 (fetch req) s1)"

section \<open>clearChat\<close>

definition clearChat :: "state \<Rightarrow> state" where
  "clearChat s = apply_updates [ResetMessages, SetError None] s"

section \<open>The component among its events\<close>

text \<open>
  The component's state together with the requests it has issued: \<open>in_flight\<close> are the
  ones whose \<^verbatim>\<open>await\<close> has not returned yet, \<open>sent\<close> is every one issued so far. An event
  is a change of the input field, a submission of the form, the settlement of the oldest
  request in flight, or a click on the clear button. Each event is handled on the state
  the previous one has committed: a handler sees the \<^verbatim>\<open>inputMessage\<close> and \<^verbatim>\<open>isLoading\<close> of
  the latest render. The input field is disabled while a request is pending; the model
  lets it change all the same. A settlement with nothing in flight cannot happen and
  leaves everything as it is.
\<close>

record world =
  ui :: state
  in_flight :: "request list"
  sent :: "request list"

datatype event =
    OnChange jsstring
  | OnSubmit tick
  | OnSettle tick fetch_outcome
  | OnClear

fun step :: "jsstring option \<Rightarrow> world \<Rightarrow> event \<Rightarrow> world" where
  "step env w (OnChange v) = w\<lparr>ui := apply_update (ui w) (SetInputMessage v)\<rparr>"
| "step env w (OnSubmit t) =
     (case sendMessage_begin env t (ui w) of
        (s1, None) \<Rightarrow> w\<lparr>ui := s1\<rparr>
      | (s1, Some req) \<Rightarrow>
          w\<lparr>ui := s1, in_flight := in_flight w @ [req], sent := sent w @ [req]\<rparr>)"
| "step env w (OnSettle t outcome) =
     (case in_flight w of
        [] \<Rightarrow> w
      | req # rest \<Rightarrow> w\<lparr>ui := sendMessage_settle t outcome (ui w), in_flight := rest\<rparr>)"
| "step env w OnClear = w\<lparr>ui := clearChat (ui w)\<rparr>"

definition run :: "jsstring option \<Rightarrow> world \<Rightarrow> event list \<Rightarrow> world" where
  "run env w es = foldl (step env) w es"

section \<open>Concrete inputs\<close>

text \<open>
  The inputs at which the theorems below are evaluated: a clock whose two readings
  agree; idle, empty chats in which the user has typed Hello, two spaces, A, or Hi
  between two spaces; the chat in which A has been submitted and is in flight; and
  responses of the endpoint: the reply Hi there!, HTTP 500, the empty object, the empty
  array, a body that is not JSON, and a reply that is a number. \<open>answering r\<close> is the
  endpoint that answers every request with \<open>r\<close>.
\<close>

definition at_ms :: "int \<Rightarrow> tick" where
  "at_ms n = \<lparr>date_now = n, new_date = n\<rparr>"

definition hello_state :: state where
  "hello_state = \<lparr>messages = [], inputMessage = js ''Hello'', isLoading = False, error = None\<rparr>"

definition hi_there :: response where
  "hi_there = \<lparr>status = 200,
               json_body = Inr (JObj [(js ''response'', JStr (js ''Hi there!''))])\<rparr>"

definition http_500 :: response where
  "http_500 = \<lparr>status = 500, json_body = Inl (Error (js ''Unexpected end of JSON input''))\<rparr>"

definition answering :: "response \<Rightarrow> request \<Rightarrow> fetch_outcome" where
  "answering r req = Resolved r"

definition blank_state :: state where
  "blank_state = \<lparr>messages = [], inputMessage = js ''  '', isLoading = False, error = None\<rparr>"

definition idle_world :: world where
  "idle_world = \<lparr>ui = \<lparr>messages = [], inputMessage = js ''A'', isLoading = False, error = None\<rparr>,
                  in_flight = [], sent = []\<rparr>"

definition empty_object :: response where
  "empty_object = \<lparr>status = 200, json_body = Inr (JObj [])\<rparr>"

definition not_json :: response where
  "not_json = \<lparr>status = 200, json_body = Inl (Error (js ''Unexpected token < in JSON at position 0''))\<rparr>"

definition number_reply :: response where
  "number_reply = \<lparr>status = 200, json_body = Inr (JObj [(js ''response'', JNum ''42'')])\<rparr>"

definition array_body :: response where
  "array_body = \<lparr>status = 200, json_body = Inr (JArr [])\<rparr>"

definition padded_state :: state where
  "padded_state = \<lparr>messages = [], inputMessage = js '' Hi '', isLoading = False, error = None\<rparr>"

definition pending_world :: world where
  "pending_world =
     \<lparr>ui = \<lparr>messages = [\<lparr>msg_id = js ''1000'', msg_text = Val (JStr (js ''A'')), isUser = True,
                           timestamp = 1000\<rparr>],
             inputMessage = [], isLoading = True, error = None\<rparr>,
      in_flight = [\<lparr>url = js ''http://127.0.0.1:8000/chat'', http_method = js ''POST'',
                    headers = [(js ''Content-Type'', js ''application/json'')],
                    body = JObj [(js ''message'', JStr (js ''A''))]\<rparr>],
      sent = [\<lparr>url = js ''http://127.0.0.1:8000/chat'', http_method = js ''POST'',
               headers = [(js ''Content-Type'', js ''application/json'')],
               body = JObj [(js ''message'', JStr (js ''A''))]\<rparr>]\<rparr>"

section \<open>Invariants\<close>

text \<open>
  \<open>single_flight\<close>: at most one request is in flight, and \<open>isLoading\<close> says whether one is.
  \<open>ids_below b\<close>: every id in the transcript is the decimal text of an integer up to \<open>b\<close>,
  and no two are the same. \<open>spaced b\<close>: the clock readings of a sequence of events keep
  ahead of the ids already issued, when the largest so far is \<open>b\<close>: a submission reads a
  value above it, a settlement a value not below it.
\<close>

definition single_flight :: "world \<Rightarrow> bool" where
  "single_flight w = (length (in_flight w) \<le> 1 \<and> isLoading (ui w) = (in_flight w \<noteq> []))"

definition ids_below :: "int \<Rightarrow> state \<Rightarrow> bool" where
  "ids_below b s =
     (list_all (\<lambda>m. \<exists>k. msg_id m = toString k \<and> k \<le> b) (messages s)
      \<and> distinct (map msg_id (messages s)))"

fun spaced :: "int \<Rightarrow> event list \<Rightarrow> bool" where
  "spaced b [] = True"
| "spaced b (OnSubmit t # es) = (b < date_now t \<and> spaced (date_now t) es)"
| "spaced b (OnSettle t outcome # es) = (b \<le> date_now t \<and> spaced (date_now t + 1) es)"
| "spaced b (OnChange v # es) = spaced b es"
| "spaced b (OnClear # es) = spaced b es"

section \<open>The handlers as state transformers\<close>

lemma replace_trailing_slash_eq:
  "replace_trailing_slash s = (if s \<noteq> [] \<and> last s = of_char CHR ''/'' then butlast s else s)"
  by (induction s) auto

lemma sendMessage_begin_idle:
  assumes "\<not> isLoading s" and "trim (inputMessage s) \<noteq> []"
  shows "sendMessage_begin env t s =
           (s\<lparr>messages := messages s @ [userMessage t s], inputMessage := [],
              isLoading := True, error := None\<rparr>,
            Some (chat_request env s))"
  using assms by (simp add: sendMessage_begin_def begin_updates_def apply_updates_def)

lemma sendMessage_begin_blocked:
  assumes "trim (inputMessage s) = [] \<or> isLoading s"
  shows "sendMessage_begin env t s = (s, None)"
  using assms by (auto simp add: sendMessage_begin_def)

lemma sendMessage_settle_eq:
  "sendMessage_settle t outcome s =
     (case try_block t outcome of
        Inr m \<Rightarrow> s\<lparr>messages := messages s @ [m], isLoading := False\<rparr>
      | Inl e \<Rightarrow> s\<lparr>error := Some (error_text e), messages := messages s @ [errorMessage t],
                    isLoading := False\<rparr>)"
  by (simp add: sendMessage_settle_def settle_updates_def apply_updates_def split: sum.splits)

lemma clearChat_eq: "clearChat s = s\<lparr>messages := [], error := None\<rparr>"
  by (simp add: clearChat_def apply_updates_def)

lemma error_text_nonempty: "error_text e \<noteq> []"
  by (simp add: error_text_def js_def)

text \<open>Unfolding every definition evaluates the handlers on a concrete input.\<close>

lemmas eval_defs =
  sendMessage_def sendMessage_begin_def begin_updates_def apply_updates_def
  sendMessage_settle_def settle_updates_def try_block_def ok_def userMessage_def
  botMessage_def errorMessage_def apology_def error_text_def chat_request_def
  clearChat_def run_def trim_def is_whitespace_def js_def toString_def digits.simps
  digit_def at_ms_def

section \<open>A successful exchange\<close>

text \<open>
  Claim C1. From an idle state whose input is not blank, when the endpoint answers with
  a 2xx status and a JSON object whose \<^verbatim>\<open>response\<close> member is a string, the exchange
  appends exactly two messages to the transcript: the user message carrying the
  submitted text, then the assistant message carrying the reply. When it has settled,
  \<open>isLoading\<close> is false and \<open>error\<close> is absent.
\<close>

theorem successful_exchange:
  assumes "\<not> isLoading s" and "trim (inputMessage s) \<noteq> []"
    and "fetch (chat_request env s) = Resolved r" and "ok r"
    and "json_body r = Inr (JObj members)"
    and "get_response (JObj members) = Inr (Val (JStr reply))"
  shows "messages (sendMessage env fetch t t' s) =
           messages s @
           [\<lparr>msg_id = toString (date_now t), msg_text = Val (JStr (inputMessage s)),
              isUser = True, timestamp = new_date t\<rparr>,
            \<lparr>msg_id = toString (date_now t' + 1), msg_text = Val (JStr reply),
              isUser = False, timestamp = new_date t'\<rparr>]
         \<and> isLoading (sendMessage env fetch t t' s) = False
         \<and> error (sendMessage env fetch t t' s) = None"
proof -
  have tb: "try_block t' (fetch (chat_request env s)) = Inr (botMessage t' (Val (JStr reply)))"
    using assms(3-6) by (simp add: try_block_def)
  show ?thesis
    by (simp add: sendMessage_def sendMessage_begin_idle [OF assms(1,2)] sendMessage_settle_eq tb
        userMessage_def botMessage_def)
qed

text \<open>The scenario of the specification: Hello is answered by Hi there!\<close>

theorem successful_exchange_witness:
  "\<not> isLoading hello_state \<and> trim (inputMessage hello_state) \<noteq> [] \<and> ok hi_there
   \<and> messages (sendMessage None (\<lambda>req. Resolved hi_there) (at_ms 1000) (at_ms 1250) hello_state) =
       [\<lparr>msg_id = js ''1000'', msg_text = Val (JStr (js ''Hello'')), isUser = True,
          timestamp = 1000\<rparr>,
        \<lparr>msg_id = js ''1251'', msg_text = Val (JStr (js ''Hi there!'')), isUser = False,
          timestamp = 1250\<rparr>]
   \<and> isLoading (sendMessage None (\<lambda>req. Resolved hi_there) (at_ms 1000) (at_ms 1250) hello_state) = False
   \<and> error (sendMessage None (\<lambda>req. Resolved hi_there) (at_ms 1000) (at_ms 1250) hello_state) = None"
proof -
  have h1: "\<not> isLoading hello_state" by (simp add: hello_state_def)
  have h2: "trim (inputMessage hello_state) \<noteq> []"
    by (simp add: hello_state_def trim_def js_def is_whitespace_def)
  have h3: "(\<lambda>req. Resolved hi_there) (chat_request None hello_state) = Resolved hi_there" by simp
  have h4: "ok hi_there" by (simp add: ok_def hi_there_def)
  have h5: "json_body hi_there = Inr (JObj [(js ''response'', JStr (js ''Hi there!''))])"
    by (simp add: hi_there_def)
  have h6: "get_response (JObj [(js ''response'', JStr (js ''Hi there!''))])
              = Inr (Val (JStr (js ''Hi there!'')))" by simp
  have ids: "toString 1000 = js ''1000''" "toString 1251 = js ''1251''"
    by (simp_all add: toString_def js_def digits.simps digit_def)
  from successful_exchange [OF h1 h2 h3 h4 h5 h6, where t = "at_ms 1000" and t' = "at_ms 1250"] h1 h2 h4 ids
  show ?thesis by (simp add: at_ms_def hello_state_def)
qed

section \<open>A failed exchange\<close>

text \<open>
  The \<^verbatim>\<open>try\<close> block throws when \<^verbatim>\<open>fetch\<close> rejects, when the status is not 2xx, when
  \<^verbatim>\<open>response.json()\<close> rejects, and when the body is \<^verbatim>\<open>null\<close>. For a status that is not
  2xx the thrown message ends with the status.
\<close>

lemma try_block_fails:
  assumes "(\<exists>e. outcome = Rejected e)
       \<or> (\<exists>r. outcome = Resolved r
             \<and> (\<not> ok r \<or> (\<exists>e. json_body r = Inl e) \<or> json_body r = Inr JNull))"
  shows "\<exists>e. try_block t outcome = Inl e
           \<and> (\<forall>r. outcome = Resolved r \<and> \<not> ok r
                  \<longrightarrow> e = Error (js ''HTTP error! status: '' @ toString (int (status r))))"
proof (cases outcome)
  case (Rejected e)
  then show ?thesis by (simp add: try_block_def)
next
  case (Resolved r)
  show ?thesis
  proof (cases "ok r")
    case False
    with Resolved show ?thesis by (simp add: try_block_def)
  next
    case True
    with Resolved assms have "(\<exists>e. json_body r = Inl e) \<or> json_body r = Inr JNull" by auto
    with Resolved True show ?thesis by (auto simp add: try_block_def)
  qed
qed

text \<open>
  Claim C2, as stated, fails for a malformed response that still parses: the handler
  treats a 2xx response as a failure only when reading it throws. For a 2xx response
  whose body is the empty array, no apology is appended and \<open>error\<close> stays absent; the
  assistant message appended has \<^verbatim>\<open>undefined\<close> as its text.
\<close>

theorem failed_exchange_counterexample:
  "\<not> isLoading hello_state \<and> trim (inputMessage hello_state) \<noteq> [] \<and> ok array_body
   \<and> json_body array_body = Inr (JArr [])
   \<and> get_response (JArr []) = Inr Undefined
   \<and> error (sendMessage None (answering array_body) (at_ms 1000) (at_ms 1250) hello_state) = None
   \<and> messages (sendMessage None (answering array_body) (at_ms 1000) (at_ms 1250) hello_state) =
       [\<lparr>msg_id = js ''1000'', msg_text = Val (JStr (js ''Hello'')), isUser = True,
          timestamp = 1000\<rparr>,
        \<lparr>msg_id = js ''1251'', msg_text = Undefined, isUser = False, timestamp = 1250\<rparr>]
   \<and> Undefined \<noteq> Val (JStr (js ''Sorry, I encountered an error. Please try again.''))"
  by (simp add: eval_defs answering_def hello_state_def array_body_def)

text \<open>
  Claim C2, amended. From an idle state whose input is not blank, when the exchange
  fails in a way the handler detects (the request is rejected, the status is not 2xx, or
  the body cannot be read as JSON or is \<^verbatim>\<open>null\<close>), the exchange appends exactly the user
  message and one assistant message whose text is the fixed apology, sets \<open>error\<close> to a
  non-empty string that contains the status code when the status is not 2xx, and ends
  with \<open>isLoading\<close> false, the last setter call being \<^verbatim>\<open>setIsLoading(false)\<close>.
\<close>

theorem failed_exchange:
  assumes "\<not> isLoading s" and "trim (inputMessage s) \<noteq> []"
    and "(\<exists>e. fetch (chat_request env s) = Rejected e)
       \<or> (\<exists>r. fetch (chat_request env s) = Resolved r
             \<and> (\<not> ok r \<or> (\<exists>e. json_body r = Inl e) \<or> json_body r = Inr JNull))"
  shows "messages (sendMessage env fetch t t' s) =
           messages s @
           [\<lparr>msg_id = toString (date_now t), msg_text = Val (JStr (inputMessage s)),
              isUser = True, timestamp = new_date t\<rparr>,
            \<lparr>msg_id = toString (date_now t' + 1),
              msg_text = Val (JStr (js ''Sorry, I encountered an error. Please try again.'')),
              isUser = False, timestamp = new_date t'\<rparr>]
         \<and> (\<exists>e. error (sendMessage env fetch t t' s) = Some e \<and> e \<noteq> []
                \<and> (\<forall>r. fetch (chat_request env s) = Resolved r \<and> \<not> ok r
                       \<longrightarrow> sublist (toString (int (status r))) e))
         \<and> isLoading (sendMessage env fetch t t' s) = False
         \<and> last (settle_updates t' (fetch (chat_request env s))) = SetIsLoading False"
proof -
  obtain e where tb: "try_block t' (fetch (chat_request env s)) = Inl e"
    and st: "\<forall>r. fetch (chat_request env s) = Resolved r \<and> \<not> ok r
               \<longrightarrow> e = Error (js ''HTTP error! status: '' @ toString (int (status r)))"
    using try_block_fails [OF assms(3)] by blast
  have msgs: "messages (sendMessage env fetch t t' s) =
           messages s @
           [\<lparr>msg_id = toString (date_now t), msg_text = Val (JStr (inputMessage s)),
              isUser = True, timestamp = new_date t\<rparr>,
            \<lparr>msg_id = toString (date_now t' + 1),
              msg_text = Val (JStr (js ''Sorry, I encountered an error. Please try again.'')),
              isUser = False, timestamp = new_date t'\<rparr>]"
    by (simp add: sendMessage_def sendMessage_begin_idle [OF assms(1,2)] sendMessage_settle_eq tb
        userMessage_def errorMessage_def apology_def)
  have err: "error (sendMessage env fetch t t' s) = Some (error_text e)"
    by (simp add: sendMessage_def sendMessage_begin_idle [OF assms(1,2)] sendMessage_settle_eq tb)
  have sub: "\<forall>r. fetch (chat_request env s) = Resolved r \<and> \<not> ok r
               \<longrightarrow> sublist (toString (int (status r))) (error_text e)"
  proof (intro allI impI)
    fix r assume a: "fetch (chat_request env s) = Resolved r \<and> \<not> ok r"
    with st have e: "e = Error (js ''HTTP error! status: '' @ toString (int (status r)))" by blast
    have "error_text e = (js ''Failed to send message: '' @ js ''HTTP error! status: '')
                           @ toString (int (status r))"
      by (simp add: e error_text_def js_def)
    then show "sublist (toString (int (status r))) (error_text e)"
      by (metis sublist_append_leftI)
  qed
  have ld: "isLoading (sendMessage env fetch t t' s) = False"
    by (simp add: sendMessage_def sendMessage_begin_idle [OF assms(1,2)] sendMessage_settle_eq tb)
  have lst: "last (settle_updates t' (fetch (chat_request env s))) = SetIsLoading False"
    by (simp add: settle_updates_def)
  from msgs err sub ld lst error_text_nonempty show ?thesis by blast
qed

text \<open>The scenario of the specification: Hello is answered by HTTP 500.\<close>

theorem failed_exchange_witness:
  "\<not> isLoading hello_state \<and> trim (inputMessage hello_state) \<noteq> [] \<and> \<not> ok http_500
   \<and> messages (sendMessage None (\<lambda>req. Resolved http_500) (at_ms 1000) (at_ms 1250) hello_state) =
       [\<lparr>msg_id = js ''1000'', msg_text = Val (JStr (js ''Hello'')), isUser = True,
          timestamp = 1000\<rparr>,
        \<lparr>msg_id = js ''1251'',
          msg_text = Val (JStr (js ''Sorry, I encountered an error. Please try again.'')),
          isUser = False, timestamp = 1250\<rparr>]
   \<and> (\<exists>e. error (sendMessage None (\<lambda>req. Resolved http_500) (at_ms 1000) (at_ms 1250) hello_state)
            = Some e \<and> e \<noteq> [] \<and> sublist (js ''500'') e)
   \<and> isLoading (sendMessage None (\<lambda>req. Resolved http_500) (at_ms 1000) (at_ms 1250) hello_state) = False"
proof -
  have h1: "\<not> isLoading hello_state" by (simp add: hello_state_def)
  have h2: "trim (inputMessage hello_state) \<noteq> []"
    by (simp add: hello_state_def trim_def js_def is_whitespace_def)
  have h4: "\<not> ok http_500" by (simp add: ok_def http_500_def)
  have h3: "(\<exists>e. (\<lambda>req. Resolved http_500) (chat_request None hello_state) = Rejected e)
       \<or> (\<exists>r. (\<lambda>req. Resolved http_500) (chat_request None hello_state) = Resolved r
             \<and> (\<not> ok r \<or> (\<exists>e. json_body r = Inl e) \<or> json_body r = Inr JNull))"
    using h4 by simp
  have ids: "toString 1000 = js ''1000''" "toString 1251 = js ''1251''" "toString 500 = js ''500''"
    by (simp_all add: toString_def js_def digits.simps digit_def)
  have st: "int (status http_500) = 500" by (simp add: http_500_def)
  from failed_exchange [OF h1 h2 h3, where t = "at_ms 1000" and t' = "at_ms 1250"] h1 h2 h4 ids st
  show ?thesis by (auto simp add: at_ms_def hello_state_def)
qed

section \<open>Submissions that are ignored\<close>

text \<open>
  Claim C3. When the input is empty after trimming, or a request is pending, a
  submission does nothing: the handler returns before any setter call and before
  \<^verbatim>\<open>fetch\<close>, so the messages, \<open>isLoading\<close>, \<open>error\<close>, the input field and the requests
  issued are all unchanged. In particular, after a submission from an idle state, a
  second submission made before the first settles changes nothing, whatever has been
  typed in between, and the only request ever sent is the first one.
\<close>

theorem submit_noop:
  "(trim (inputMessage (ui w)) = [] \<or> isLoading (ui w)
      \<longrightarrow> sendMessage_begin env t (ui w) = (ui w, None)
        \<and> step env w (OnSubmit t) = w
        \<and> sendMessage env fetch t t' (ui w) = ui w)
   \<and> (\<not> isLoading (ui w) \<and> trim (inputMessage (ui w)) \<noteq> []
      \<longrightarrow> run env w [OnSubmit t, OnChange b, OnSubmit t'] = run env w [OnSubmit t, OnChange b]
        \<and> sent (run env w [OnSubmit t, OnChange b, OnSubmit t']) = sent w @ [chat_request env (ui w)]
        \<and> inputMessage (ui (run env w [OnSubmit t, OnChange b, OnSubmit t'])) = b)"
proof (intro conjI impI)
  assume a: "trim (inputMessage (ui w)) = [] \<or> isLoading (ui w)"
  show "sendMessage_begin env t (ui w) = (ui w, None)"
    by (rule sendMessage_begin_blocked [OF a])
  show "step env w (OnSubmit t) = w"
    by (simp add: sendMessage_begin_blocked [OF a])
  show "sendMessage env fetch t t' (ui w) = ui w"
    by (simp add: sendMessage_def sendMessage_begin_blocked [OF a])
next
  assume a: "\<not> isLoading (ui w) \<and> trim (inputMessage (ui w)) \<noteq> []"
  then have b: "sendMessage_begin env t (ui w) =
           ((ui w)\<lparr>messages := messages (ui w) @ [userMessage t (ui w)], inputMessage := [],
              isLoading := True, error := None\<rparr>,
            Some (chat_request env (ui w)))"
    by (simp add: sendMessage_begin_idle)
  define w2 where "w2 = step env (step env w (OnSubmit t)) (OnChange b)"
  have l2: "isLoading (ui w2)"
    by (simp add: w2_def b)
  have n: "step env w2 (OnSubmit t') = w2"
    by (simp add: sendMessage_begin_blocked l2)
  have r3: "run env w [OnSubmit t, OnChange b, OnSubmit t'] = step env w2 (OnSubmit t')"
    by (simp add: run_def w2_def)
  have r2: "run env w [OnSubmit t, OnChange b] = w2"
    by (simp add: run_def w2_def)
  show "run env w [OnSubmit t, OnChange b, OnSubmit t'] = run env w [OnSubmit t, OnChange b]"
    by (simp only: r3 r2 n)
  show "sent (run env w [OnSubmit t, OnChange b, OnSubmit t']) = sent w @ [chat_request env (ui w)]"
    by (simp only: r3 n) (simp add: w2_def b)
  show "inputMessage (ui (run env w [OnSubmit t, OnChange b, OnSubmit t'])) = b"
    by (simp only: r3 n) (simp add: w2_def b)
qed


text \<open>
  A submission of two spaces, and the scenario of the specification: B is submitted
  while A is in flight.
\<close>

theorem submit_noop_witness:
  "trim (inputMessage (ui (idle_world\<lparr>ui := blank_state\<rparr>))) = []
   \<and> step None (idle_world\<lparr>ui := blank_state\<rparr>) (OnSubmit (at_ms 1000)) = idle_world\<lparr>ui := blank_state\<rparr>
   \<and> \<not> isLoading (ui idle_world) \<and> trim (inputMessage (ui idle_world)) \<noteq> []
   \<and> run None idle_world [OnSubmit (at_ms 1000), OnChange (js ''B''), OnSubmit (at_ms 1001)]
       = run None idle_world [OnSubmit (at_ms 1000), OnChange (js ''B'')]
   \<and> map body (sent (run None idle_world [OnSubmit (at_ms 1000), OnChange (js ''B''), OnSubmit (at_ms 1001)]))
       = [JObj [(js ''message'', JStr (js ''A''))]]"
proof -
  have h1: "trim (inputMessage (ui (idle_world\<lparr>ui := blank_state\<rparr>))) = []"
    by (simp add: blank_state_def trim_def js_def is_whitespace_def)
  have h2: "\<not> isLoading (ui idle_world) \<and> trim (inputMessage (ui idle_world)) \<noteq> []"
    by (simp add: idle_world_def trim_def js_def is_whitespace_def)
  have r: "map body [chat_request None (ui idle_world)] = [JObj [(js ''message'', JStr (js ''A''))]]"
    by (simp add: chat_request_def idle_world_def)
  have s0: "sent idle_world = []" by (simp add: idle_world_def)
  have p1: "step None (idle_world\<lparr>ui := blank_state\<rparr>) (OnSubmit (at_ms 1000)) = idle_world\<lparr>ui := blank_state\<rparr>"
    using submit_noop [where w = "idle_world\<lparr>ui := blank_state\<rparr>" and env = None and t = "at_ms 1000"] h1
    by blast
  have p2: "run None idle_world [OnSubmit (at_ms 1000), OnChange (js ''B''), OnSubmit (at_ms 1001)]
       = run None idle_world [OnSubmit (at_ms 1000), OnChange (js ''B'')]
     \<and> sent (run None idle_world [OnSubmit (at_ms 1000), OnChange (js ''B''), OnSubmit (at_ms 1001)])
        = sent idle_world @ [chat_request None (ui idle_world)]"
    using submit_noop [where w = idle_world and env = None and t = "at_ms 1000" and b = "js ''B''"
      and t' = "at_ms 1001"] h2
    by blast
  have p3: "map body (sent (run None idle_world [OnSubmit (at_ms 1000), OnChange (js ''B''), OnSubmit (at_ms 1001)]))
       = [JObj [(js ''message'', JStr (js ''A''))]]"
    using p2 s0 r by (metis append_Nil)
  from h1 h2 p1 p2 p3 show ?thesis by blast
qed

section \<open>Responses of another shape\<close>

text \<open>Only \<^verbatim>\<open>null\<close> makes the read of \<^verbatim>\<open>data.response\<close> throw.\<close>

lemma get_response_not_null: "data \<noteq> JNull \<Longrightarrow> \<exists>v. get_response data = Inr v"
  by (cases data) (auto split: option.splits)

text \<open>
  Claim C4, as stated, fails: the handler never inspects the shape of the parsed body.
  A 2xx response whose body is the empty object is not treated as a failure; \<open>error\<close>
  stays absent and the assistant message appended has \<^verbatim>\<open>undefined\<close> as its text.
\<close>

theorem malformed_shape_counterexample:
  "\<not> isLoading hello_state \<and> trim (inputMessage hello_state) \<noteq> [] \<and> ok empty_object
   \<and> json_body empty_object = Inr (JObj [])
   \<and> get_response (JObj []) = Inr Undefined
   \<and> error (sendMessage None (answering empty_object) (at_ms 1000) (at_ms 1250) hello_state) = None
   \<and> messages (sendMessage None (answering empty_object) (at_ms 1000) (at_ms 1250) hello_state) =
       [\<lparr>msg_id = js ''1000'', msg_text = Val (JStr (js ''Hello'')), isUser = True,
          timestamp = 1000\<rparr>,
        \<lparr>msg_id = js ''1251'', msg_text = Undefined, isUser = False, timestamp = 1250\<rparr>]"
  by (simp add: eval_defs answering_def hello_state_def empty_object_def)

text \<open>
  Claim C4, amended. For a 2xx response, the exchange is handled as a failure (\<open>error\<close>
  set, the apology appended) when the body cannot be read as JSON or is \<^verbatim>\<open>null\<close>. Every
  other body is accepted: \<open>error\<close> stays absent and the assistant message carries whatever
  \<^verbatim>\<open>data.response\<close> evaluates to, \<^verbatim>\<open>undefined\<close> included.
\<close>

theorem malformed_response:
  assumes "\<not> isLoading s" and "trim (inputMessage s) \<noteq> []"
    and "fetch (chat_request env s) = Resolved r" and "ok r"
  shows "((\<exists>e. json_body r = Inl e) \<or> json_body r = Inr JNull \<longrightarrow>
            (\<exists>e. error (sendMessage env fetch t t' s) = Some e \<and> e \<noteq> [])
          \<and> messages (sendMessage env fetch t t' s) =
              messages s @
              [\<lparr>msg_id = toString (date_now t), msg_text = Val (JStr (inputMessage s)),
                 isUser = True, timestamp = new_date t\<rparr>,
               \<lparr>msg_id = toString (date_now t' + 1),
                 msg_text = Val (JStr (js ''Sorry, I encountered an error. Please try again.'')),
                 isUser = False, timestamp = new_date t'\<rparr>])
       \<and> (\<forall>data. json_body r = Inr data \<and> data \<noteq> JNull \<longrightarrow>
            error (sendMessage env fetch t t' s) = None
          \<and> (\<exists>v. get_response data = Inr v
               \<and> messages (sendMessage env fetch t t' s) =
                   messages s @
                   [\<lparr>msg_id = toString (date_now t), msg_text = Val (JStr (inputMessage s)),
                      isUser = True, timestamp = new_date t\<rparr>,
                    \<lparr>msg_id = toString (date_now t' + 1), msg_text = v,
                      isUser = False, timestamp = new_date t'\<rparr>]))"
proof (intro conjI impI allI)
  assume a: "(\<exists>e. json_body r = Inl e) \<or> json_body r = Inr JNull"
  then obtain e where tb: "try_block t' (fetch (chat_request env s)) = Inl e"
    using assms(3,4) by (auto simp add: try_block_def)
  show "\<exists>e. error (sendMessage env fetch t t' s) = Some e \<and> e \<noteq> []"
    by (simp add: sendMessage_def sendMessage_begin_idle [OF assms(1,2)] sendMessage_settle_eq tb
        error_text_nonempty)
  show "messages (sendMessage env fetch t t' s) =
              messages s @
              [\<lparr>msg_id = toString (date_now t), msg_text = Val (JStr (inputMessage s)),
                 isUser = True, timestamp = new_date t\<rparr>,
               \<lparr>msg_id = toString (date_now t' + 1),
                 msg_text = Val (JStr (js ''Sorry, I encountered an error. Please try again.'')),
                 isUser = False, timestamp = new_date t'\<rparr>]"
    by (simp add: sendMessage_def sendMessage_begin_idle [OF assms(1,2)] sendMessage_settle_eq tb
        userMessage_def errorMessage_def apology_def)
next
  fix data
  assume a: "json_body r = Inr data \<and> data \<noteq> JNull"
  then obtain v where v: "get_response data = Inr v"
    using get_response_not_null by blast
  have tb: "try_block t' (fetch (chat_request env s)) = Inr (botMessage t' v)"
    using a v assms(3,4) by (simp add: try_block_def)
  show "error (sendMessage env fetch t t' s) = None"
    by (simp add: sendMessage_def sendMessage_begin_idle [OF assms(1,2)] sendMessage_settle_eq tb)
  have "messages (sendMessage env fetch t t' s) =
                   messages s @
                   [\<lparr>msg_id = toString (date_now t), msg_text = Val (JStr (inputMessage s)),
                      isUser = True, timestamp = new_date t\<rparr>,
                    \<lparr>msg_id = toString (date_now t' + 1), msg_text = v,
                      isUser = False, timestamp = new_date t'\<rparr>]"
    by (simp add: sendMessage_def sendMessage_begin_idle [OF assms(1,2)] sendMessage_settle_eq tb
        userMessage_def botMessage_def)
  with v show "\<exists>v. get_response data = Inr v
               \<and> messages (sendMessage env fetch t t' s) =
                   messages s @
                   [\<lparr>msg_id = toString (date_now t), msg_text = Val (JStr (inputMessage s)),
                      isUser = True, timestamp = new_date t\<rparr>,
                    \<lparr>msg_id = toString (date_now t' + 1), msg_text = v,
                      isUser = False, timestamp = new_date t'\<rparr>]"
    by blast
qed

text \<open>A body that is not JSON, and a body whose \<^verbatim>\<open>response\<close> member is a number.\<close>

theorem malformed_response_witness:
  "\<not> isLoading hello_state \<and> trim (inputMessage hello_state) \<noteq> []
   \<and> ok not_json \<and> (\<exists>e. json_body not_json = Inl e)
   \<and> (\<exists>e. error (sendMessage None (\<lambda>req. Resolved not_json) (at_ms 1000) (at_ms 1250) hello_state)
          = Some e \<and> e \<noteq> [])
   \<and> map msg_text (messages (sendMessage None (\<lambda>req. Resolved not_json) (at_ms 1000) (at_ms 1250) hello_state))
       = [Val (JStr (js ''Hello'')),
          Val (JStr (js ''Sorry, I encountered an error. Please try again.''))]
   \<and> ok number_reply
   \<and> json_body number_reply = Inr (JObj [(js ''response'', JNum ''42'')])
   \<and> error (sendMessage None (\<lambda>req. Resolved number_reply) (at_ms 1000) (at_ms 1250) hello_state) = None
   \<and> map msg_text (messages (sendMessage None (\<lambda>req. Resolved number_reply) (at_ms 1000) (at_ms 1250) hello_state))
       = [Val (JStr (js ''Hello'')), Val (JNum ''42'')]"
proof -
  have h1: "\<not> isLoading hello_state" by (simp add: hello_state_def)
  have h2: "trim (inputMessage hello_state) \<noteq> []"
    by (simp add: hello_state_def trim_def js_def is_whitespace_def)
  have a3: "(\<lambda>req. Resolved not_json) (chat_request None hello_state) = Resolved not_json" by simp
  have a4: "ok not_json" by (simp add: ok_def not_json_def)
  have a5: "\<exists>e. json_body not_json = Inl e" by (simp add: not_json_def)
  have b3: "(\<lambda>req. Resolved number_reply) (chat_request None hello_state) = Resolved number_reply"
    by simp
  have b4: "ok number_reply" by (simp add: ok_def number_reply_def)
  have b5: "json_body number_reply = Inr (JObj [(js ''response'', JNum ''42'')])"
    by (simp add: number_reply_def)
  have b6: "get_response (JObj [(js ''response'', JNum ''42'')]) = Inr (Val (JNum ''42''))"
    by simp
  have hs: "messages hello_state = []" "inputMessage hello_state = js ''Hello''"
    by (simp_all add: hello_state_def)
  from malformed_response [OF h1 h2 a3 a4, where t = "at_ms 1000" and t' = "at_ms 1250"] a5
  have p1: "(\<exists>e. error (sendMessage None (\<lambda>req. Resolved not_json) (at_ms 1000) (at_ms 1250) hello_state)
          = Some e \<and> e \<noteq> [])
     \<and> map msg_text (messages (sendMessage None (\<lambda>req. Resolved not_json) (at_ms 1000) (at_ms 1250) hello_state))
       = [Val (JStr (js ''Hello'')),
          Val (JStr (js ''Sorry, I encountered an error. Please try again.''))]"
    by (simp add: hs)
  from malformed_response [OF h1 h2 b3 b4, where t = "at_ms 1000" and t' = "at_ms 1250"] b5 b6
  have p2: "error (sendMessage None (\<lambda>req. Resolved number_reply) (at_ms 1000) (at_ms 1250) hello_state) = None
     \<and> map msg_text (messages (sendMessage None (\<lambda>req. Resolved number_reply) (at_ms 1000) (at_ms 1250) hello_state))
       = [Val (JStr (js ''Hello'')), Val (JNum ''42'')]"
    by (auto simp add: hs)
  from h1 h2 a4 a5 b4 b5 p1 p2 show ?thesis by blast
qed

section \<open>The request\<close>

text \<open>
  Claim C5, as stated, fails: \<^verbatim>\<open>trim\<close> is used in the guard only. For the input
  \<^verbatim>\<open>" Hi "\<close> the request body carries the text with its spaces, not \<^verbatim>\<open>"Hi"\<close>.
\<close>

theorem request_body_counterexample:
  "\<not> isLoading padded_state
   \<and> trim (inputMessage padded_state) = js ''Hi''
   \<and> map_option body (snd (sendMessage_begin None (at_ms 1000) padded_state))
       = Some (JObj [(js ''message'', JStr (js '' Hi ''))])
   \<and> JObj [(js ''message'', JStr (js '' Hi ''))]
       \<noteq> JObj [(js ''message'', JStr (trim (inputMessage padded_state)))]"
  by (simp add: eval_defs padded_state_def)

text \<open>
  Claim C5, amended. Every submission that passes the guard posts to the endpoint URL a
  JSON object with the single member \<^verbatim>\<open>message\<close>, whose value is the input text exactly as
  typed. It equals the trimmed text only when the input has no whitespace at either end.
\<close>

theorem request_body:
  assumes "\<not> isLoading s" and "trim (inputMessage s) \<noteq> []"
  shows "\<exists>req. snd (sendMessage_begin env t s) = Some req
           \<and> url req = getApiUrl env \<and> http_method req = js ''POST''
           \<and> body req = JObj [(js ''message'', JStr (inputMessage s))]
           \<and> (body req = JObj [(js ''message'', JStr (trim (inputMessage s)))]
                \<longleftrightarrow> trim (inputMessage s) = inputMessage s)"
  using assms by (auto simp add: sendMessage_begin_idle chat_request_def)

text \<open>The request for the input \<^verbatim>\<open>" Hi "\<close> with no base URL configured.\<close>

theorem request_body_witness:
  "\<not> isLoading padded_state \<and> trim (inputMessage padded_state) \<noteq> []
   \<and> (\<exists>req. snd (sendMessage_begin None (at_ms 1000) padded_state) = Some req
         \<and> url req = js ''http://127.0.0.1:8000/chat'' \<and> http_method req = js ''POST''
         \<and> body req = JObj [(js ''message'', JStr (js '' Hi ''))])"
proof -
  have h1: "\<not> isLoading padded_state" by (simp add: padded_state_def)
  have h2: "trim (inputMessage padded_state) \<noteq> []"
    by (simp add: padded_state_def trim_def js_def is_whitespace_def)
  have u: "getApiUrl None = js ''http://127.0.0.1:8000/chat''"
    by (simp add: getApiUrl_def API_URL_def js_def)
  have i: "inputMessage padded_state = js '' Hi ''" by (simp add: padded_state_def)
  from request_body [OF h1 h2, of None "at_ms 1000"] h1 h2 u i show ?thesis by auto
qed

section \<open>clearChat and a request in flight\<close>

text \<open>
  The world in which A has been submitted and not answered yet is the one the component
  reaches from the idle world by that submission.
\<close>

lemma pending_world_reached:
  "pending_world = run None idle_world [OnSubmit (at_ms 1000)]"
  by (simp add: eval_defs pending_world_def idle_world_def getApiUrl_def API_URL_def)

text \<open>A settlement appends one message, and it is never a user message.\<close>

lemma settle_appends_one:
  "\<exists>m. messages (sendMessage_settle t outcome s) = messages s @ [m] \<and> \<not> isUser m
     \<and> (m = errorMessage t \<or> (\<exists>v. m = botMessage t v))"
proof (cases "try_block t outcome")
  case (Inl e)
  then show ?thesis by (simp add: sendMessage_settle_eq errorMessage_def)
next
  case (Inr m)
  then have "\<exists>v. m = botMessage t v"
    by (auto simp add: try_block_def split: fetch_outcome.splits if_splits sum.splits)
  with Inr show ?thesis by (auto simp add: sendMessage_settle_eq botMessage_def)
qed



section \<open>The transcript only grows or is emptied\<close>

text \<open>
  Claim C7. Along every sequence of events, each transition either leaves the messages
  already present as a prefix of the new list, with at most one message appended after
  them, or empties the list. No message already present is reordered, changed, merged
  with another or removed on its own.
\<close>

theorem transcript_append_or_reset:
  "messages (ui (step env (run env w es) e)) = []
   \<or> (\<exists>new. messages (ui (step env (run env w es) e)) = messages (ui (run env w es)) @ new
           \<and> length new \<le> 1)"
proof (cases e)
  case (OnChange v)
  then show ?thesis by simp
next
  case (OnSubmit t)
  then show ?thesis
    by (simp add: sendMessage_begin_def begin_updates_def apply_updates_def)
next
  case (OnSettle t outcome)
  show ?thesis
  proof (cases "in_flight (run env w es)")
    case Nil
    with OnSettle show ?thesis by simp
  next
    case (Cons req rest)
    with OnSettle settle_appends_one [of t outcome "ui (run env w es)"] show ?thesis by auto
  qed
next
  case OnClear
  then show ?thesis by (simp add: clearChat_eq)
qed

section \<open>What clearChat leaves alone\<close>

text \<open>
  Claim C10. \<^verbatim>\<open>clearChat\<close> changes the message list and \<open>error\<close> only: \<open>isLoading\<close> and
  the content of the input field are what they were, and so are the requests.
\<close>

theorem clear_frame:
  "clearChat s = s\<lparr>messages := [], error := None\<rparr>
   \<and> isLoading (clearChat s) = isLoading s
   \<and> inputMessage (clearChat s) = inputMessage s
   \<and> step env w OnClear = w\<lparr>ui := (ui w)\<lparr>messages := [], error := None\<rparr>\<rparr>"
proof -
  have c: "clearChat s = apply_update (apply_update s ResetMessages) (SetError None)" for s
    by (simp add: clearChat_def apply_updates_def)
  have e: "clearChat s = s\<lparr>messages := [], error := None\<rparr>" for s
    unfolding c by simp
  have l: "isLoading (clearChat s) = isLoading s" unfolding e by simp
  have i: "inputMessage (clearChat s) = inputMessage s" unfolding e by simp
  have w: "step env w OnClear = w\<lparr>ui := (ui w)\<lparr>messages := [], error := None\<rparr>\<rparr>"
    by (simp add: e)
  from e l i w show ?thesis by blast
qed

section \<open>The endpoint URL of a configured base URL\<close>

text \<open>
  Claim C9, as stated, fails for the empty string: a base URL configured as the empty
  string is falsy, so the default takes its place and the endpoint is not \<^verbatim>\<open>/chat\<close>.
\<close>

theorem endpoint_url_counterexample:
  "getApiUrl (Some []) = js ''http://127.0.0.1:8000/chat''
   \<and> getApiUrl (Some []) \<noteq> [] @ js ''/chat''"
  by (simp add: getApiUrl_def API_URL_def js_def)

text \<open>
  Claim C9, amended. For every non-empty base URL the endpoint is the base URL with one
  trailing slash removed, if it has one, followed by \<^verbatim>\<open>/chat\<close>; a non-empty base URL that
  does not end in a slash and the same base URL with a slash added give the same
  endpoint; with no base URL, or the empty one, the endpoint is that of the default.
\<close>

theorem endpoint_url:
  "(B \<noteq> [] \<longrightarrow>
      getApiUrl (Some B) = (if last B = of_char CHR ''/'' then butlast B else B) @ js ''/chat'')
   \<and> (B \<noteq> [] \<and> last B \<noteq> of_char CHR ''/'' \<longrightarrow>
      getApiUrl (Some (B @ js ''/'')) = getApiUrl (Some B))
   \<and> getApiUrl None = js ''http://127.0.0.1:8000/chat''
   \<and> getApiUrl (Some []) = js ''http://127.0.0.1:8000/chat''"
proof (intro conjI impI)
  assume "B \<noteq> []"
  then show "getApiUrl (Some B) = (if last B = of_char CHR ''/'' then butlast B else B) @ js ''/chat''"
    by (simp add: getApiUrl_def API_URL_def replace_trailing_slash_eq)
next
  assume a: "B \<noteq> [] \<and> last B \<noteq> of_char CHR ''/''"
  have s: "js ''/'' = [of_char CHR ''/'']" by (simp add: js_def)
  from a show "getApiUrl (Some (B @ js ''/'')) = getApiUrl (Some B)"
    by (simp add: getApiUrl_def API_URL_def replace_trailing_slash_eq s)
next
  show "getApiUrl None = js ''http://127.0.0.1:8000/chat''"
    by (simp add: getApiUrl_def API_URL_def js_def)
  show "getApiUrl (Some []) = js ''http://127.0.0.1:8000/chat''"
    by (simp add: getApiUrl_def API_URL_def js_def)
qed

text \<open>A base URL with its trailing slash, and the same one without it.\<close>

theorem endpoint_url_witness:
  "js ''https://api.example.com/'' \<noteq> []
   \<and> getApiUrl (Some (js ''https://api.example.com/'')) = js ''https://api.example.com/chat''
   \<and> js ''https://api.example.com'' \<noteq> [] \<and> last (js ''https://api.example.com'') \<noteq> of_char CHR ''/''
   \<and> getApiUrl (Some (js ''https://api.example.com'')) = js ''https://api.example.com/chat''
   \<and> getApiUrl (Some (js ''https://api.example.com'' @ js ''/''))
       = getApiUrl (Some (js ''https://api.example.com''))"
proof -
  have a1: "js ''https://api.example.com/'' \<noteq> []" by (simp add: js_def)
  have a2: "(if last (js ''https://api.example.com/'') = of_char CHR ''/''
             then butlast (js ''https://api.example.com/'') else js ''https://api.example.com/'')
            @ js ''/chat'' = js ''https://api.example.com/chat''"
    by (simp add: js_def)
  have b1: "js ''https://api.example.com'' \<noteq> [] \<and> last (js ''https://api.example.com'') \<noteq> of_char CHR ''/''"
    by (simp add: js_def)
  have b2: "(if last (js ''https://api.example.com'') = of_char CHR ''/''
             then butlast (js ''https://api.example.com'') else js ''https://api.example.com'')
            @ js ''/chat'' = js ''https://api.example.com/chat''"
    by (simp add: js_def)
  have p1: "getApiUrl (Some (js ''https://api.example.com/'')) = js ''https://api.example.com/chat''"
    using endpoint_url [of "js ''https://api.example.com/''"] a1 a2 by metis
  have p2: "getApiUrl (Some (js ''https://api.example.com'')) = js ''https://api.example.com/chat''"
    using endpoint_url [of "js ''https://api.example.com''"] b1 b2 by metis
  have p3: "getApiUrl (Some (js ''https://api.example.com'' @ js ''/''))
       = getApiUrl (Some (js ''https://api.example.com''))"
    using endpoint_url [of "js ''https://api.example.com''"] b1 by blast
  from a1 b1 p1 p2 p3 show ?thesis by blast
qed

section \<open>Message ids\<close>

text \<open>
  Claim C8 fails on the code. The user message takes \<^verbatim>\<open>Date.now()\<close> as its id and the
  assistant message \<^verbatim>\<open>Date.now() + 1\<close>. When A is submitted and answered at clock 1000 and
  B is submitted at clock 1001, the answer to A and the user message B both get the id
  1001.
\<close>

theorem message_ids_collide:
  "map msg_id (messages (ui (run None idle_world
      [OnSubmit (at_ms 1000), OnSettle (at_ms 1000) (Resolved hi_there),
       OnChange (js ''B''), OnSubmit (at_ms 1001)])))
     = [js ''1000'', js ''1001'', js ''1001'']
   \<and> \<not> distinct (map msg_id (messages (ui (run None idle_world
      [OnSubmit (at_ms 1000), OnSettle (at_ms 1000) (Resolved hi_there),
       OnChange (js ''B''), OnSubmit (at_ms 1001)]))))"
proof -
  have e: "map msg_id (messages (ui (run None idle_world
      [OnSubmit (at_ms 1000), OnSettle (at_ms 1000) (Resolved hi_there),
       OnChange (js ''B''), OnSubmit (at_ms 1001)])))
     = [js ''1000'', js ''1001'', js ''1001'']"
    by (simp add: eval_defs idle_world_def hi_there_def)
  show ?thesis unfolding e by simp
qed

section \<open>One request at a time\<close>

lemma isLoading_settle: "isLoading (sendMessage_settle t outcome s) = False"
  by (simp add: sendMessage_settle_eq split: sum.splits)

lemma single_flight_step: "single_flight w \<Longrightarrow> single_flight (step env w e)"
proof (cases e)
  case (OnChange v)
  assume "single_flight w"
  with OnChange show ?thesis by (simp add: single_flight_def)
next
  case (OnSubmit t)
  assume a: "single_flight w"
  show ?thesis
  proof (cases "trim (inputMessage (ui w)) = [] \<or> isLoading (ui w)")
    case True
    with OnSubmit a show ?thesis by (simp add: sendMessage_begin_blocked)
  next
    case False
    then have i: "\<not> isLoading (ui w)" and n: "trim (inputMessage (ui w)) \<noteq> []" by auto
    from a i have "in_flight w = []" by (simp add: single_flight_def)
    with OnSubmit show ?thesis
      by (simp add: sendMessage_begin_idle [OF i n] single_flight_def)
  qed
next
  case (OnSettle t outcome)
  assume a: "single_flight w"
  show ?thesis
  proof (cases "in_flight w")
    case Nil
    with OnSettle a show ?thesis by simp
  next
    case (Cons req rest)
    with a have "rest = []" by (simp add: single_flight_def)
    with OnSettle Cons show ?thesis by (simp add: single_flight_def isLoading_settle)
  qed
next
  case OnClear
  assume "single_flight w"
  with OnClear show ?thesis by (simp add: single_flight_def clearChat_eq)
qed

text \<open>
  From a world in which at most one request is in flight and \<open>isLoading\<close> tells whether one
  is, as at mount, every sequence of events leads to such a world again.
\<close>

theorem single_flight_run:
  assumes "single_flight w"
  shows "single_flight (run env w es)"
  using assms
proof (induction es arbitrary: w)
  case Nil
  then show ?case by (simp add: run_def)
next
  case (Cons e es)
  from Cons.prems have "single_flight (step env w e)" by (rule single_flight_step)
  then have "single_flight (run env (step env w e) es)" by (rule Cons.IH)
  then show ?case by (simp add: run_def)
qed

text \<open>A is in flight, B is typed and submitted: still one request.\<close>

theorem single_flight_run_witness:
  "single_flight idle_world
   \<and> single_flight (run None idle_world [OnSubmit (at_ms 1000), OnChange (js ''B''), OnSubmit (at_ms 1001)])
   \<and> length (in_flight (run None idle_world [OnSubmit (at_ms 1000), OnChange (js ''B''), OnSubmit (at_ms 1001)])) = 1"
proof -
  have h: "single_flight idle_world" by (simp add: single_flight_def idle_world_def)
  have l: "length (in_flight (run None idle_world [OnSubmit (at_ms 1000), OnChange (js ''B''), OnSubmit (at_ms 1001)])) = 1"
    by (simp add: eval_defs idle_world_def)
  from single_flight_run [OF h, of None "[OnSubmit (at_ms 1000), OnChange (js ''B''), OnSubmit (at_ms 1001)]"] h l
  show ?thesis by blast
qed

section \<open>When the ids are distinct\<close>

text \<open>The decimal text of an integer determines the integer.\<close>

lemma unat_digit: "k < 10 \<Longrightarrow> unat (digit k) = 48 + k"
  unfolding digit_def by (simp only: unat_of_nat) simp

lemma digit_inj: "a < 10 \<Longrightarrow> b < 10 \<Longrightarrow> digit a = digit b \<Longrightarrow> a = b"
proof -
  assume a: "a < 10" and b: "b < 10" and e: "digit a = digit b"
  have "unat (digit a) = 48 + a" using a by (rule unat_digit)
  moreover have "unat (digit b) = 48 + b" using b by (rule unat_digit)
  ultimately show "a = b" using e by (metis add_left_cancel)
qed

lemma digits_nonempty: "digits n \<noteq> []"
  by (subst digits.simps) simp

lemma digits_inj: "digits m = digits n \<Longrightarrow> m = n"
proof (induction m arbitrary: n rule: digits.induct)
  case (1 m)
  show ?case
  proof (cases "m < 10")
    case True
    then have dm: "digits m = [digit m]" by (subst digits.simps) simp
    show ?thesis
    proof (cases "n < 10")
      case n: True
      then have "digits n = [digit n]" by (subst digits.simps) simp
      with dm "1.prems" have "digit m = digit n" by simp
      with True n show ?thesis by (rule digit_inj)
    next
      case n: False
      then have "digits n = digits (n div 10) @ [digit (n mod 10)]" by (subst digits.simps) simp
      with dm "1.prems" digits_nonempty [of "n div 10"] show ?thesis by (cases "digits (n div 10)") auto
    qed
  next
    case False
    then have dm: "digits m = digits (m div 10) @ [digit (m mod 10)]" by (subst digits.simps) simp
    show ?thesis
    proof (cases "n < 10")
      case n: True
      then have "digits n = [digit n]" by (subst digits.simps) simp
      with dm "1.prems" digits_nonempty [of "m div 10"] show ?thesis by (cases "digits (m div 10)") auto
    next
      case n: False
      then have "digits n = digits (n div 10) @ [digit (n mod 10)]" by (subst digits.simps) simp
      with dm "1.prems" have e: "digits (m div 10) = digits (n div 10)"
        and d: "digit (m mod 10) = digit (n mod 10)" by auto
      from "1.IH" [OF False e] have q: "m div 10 = n div 10" .
      have "m mod 10 = n mod 10" using d by (intro digit_inj) auto
      with q show ?thesis by (metis div_mult_mod_eq)
    qed
  qed
qed

lemma digits_no_minus: "list_all (\<lambda>c. c \<noteq> of_char CHR ''-'') (digits n)"
proof (induction n rule: digits.induct)
  case (1 n)
  have d: "digit k \<noteq> 45" if "k < 10" for k
  proof
    assume e: "digit k = 45"
    have "unat (digit k) = 48 + k" using that by (rule unat_digit)
    then show False unfolding e by simp
  qed
  show ?case
  proof (cases "n < 10")
    case True
    then show ?thesis by (subst digits.simps) (simp add: d)
  next
    case False
    with "1.IH" show ?thesis by (subst digits.simps) (simp add: d)
  qed
qed

lemma toString_inj: "toString i = toString j \<Longrightarrow> i = j"
proof -
  assume e: "toString i = toString j"
  have m: "js ''-'' = [of_char CHR ''-'']" by (simp add: js_def)
  have nm: "js ''-'' @ digits a \<noteq> digits b" for a b
  proof
    assume "js ''-'' @ digits a = digits b"
    with digits_no_minus [of b] show False by (cases "digits b") (auto simp add: m)
  qed
  show "i = j"
  proof (cases "i < 0")
    case True
    show ?thesis
    proof (cases "j < 0")
      case j: True
      with True e have "digits (nat (- i)) = digits (nat (- j))" by (simp add: toString_def)
      then have "nat (- i) = nat (- j)" by (rule digits_inj)
      with True j show ?thesis by simp
    next
      case j: False
      with True e nm show ?thesis by (simp add: toString_def)
    qed
  next
    case False
    show ?thesis
    proof (cases "j < 0")
      case j: True
      with False e nm [of "nat (- j)" "nat i"] show ?thesis by (simp add: toString_def)
    next
      case j: False
      with False e have "digits (nat i) = digits (nat j)" by (simp add: toString_def)
      then have "nat i = nat j" by (rule digits_inj)
      with False j show ?thesis by simp
    qed
  qed
qed

text \<open>A message whose id is above every id in the transcript keeps the ids distinct.\<close>

lemma ids_below_mono:
  assumes "ids_below b s" and "b \<le> c"
  shows "ids_below c s"
proof -
  have "\<exists>k. msg_id m = toString k \<and> k \<le> c" if "m \<in> set (messages s)" for m
  proof -
    from assms(1) that obtain k where "msg_id m = toString k" and "k \<le> b"
      unfolding ids_below_def list_all_iff by blast
    with assms(2) have "msg_id m = toString k \<and> k \<le> c" by simp
    then show ?thesis ..
  qed
  then have "list_all (\<lambda>m. \<exists>k. msg_id m = toString k \<and> k \<le> c) (messages s)"
    unfolding list_all_iff by blast
  with assms(1) show ?thesis by (simp add: ids_below_def)
qed

lemma ids_below_append:
  assumes "ids_below b s" and "b < k" and "msg_id m = toString k"
  shows "ids_below k (s\<lparr>messages := messages s @ [m]\<rparr>)"
proof -
  have fresh: "msg_id m \<notin> set (map msg_id (messages s))"
  proof
    assume "msg_id m \<in> set (map msg_id (messages s))"
    then obtain m' where m': "m' \<in> set (messages s)" and e: "msg_id m' = msg_id m" by auto
    from assms(1) m' obtain j where j: "msg_id m' = toString j" and le: "j \<le> b"
      unfolding ids_below_def list_all_iff by blast
    from j e assms(3) have "toString j = toString k" by simp
    then have "j = k" by (rule toString_inj)
    with le assms(2) show False by simp
  qed
  have old: "list_all (\<lambda>m. \<exists>j. msg_id m = toString j \<and> j \<le> k) (messages s)"
    using ids_below_mono [OF assms(1), of k] assms(2) by (simp add: ids_below_def)
  from assms(1) have d: "distinct (map msg_id (messages s))" by (simp add: ids_below_def)
  have new: "\<exists>j. msg_id m = toString j \<and> j \<le> k"
    using assms(3) by (intro exI [of _ k]) simp
  from fresh old d new show ?thesis by (simp add: ids_below_def)
qed

lemma ids_below_frame:
  "messages s' = messages s \<Longrightarrow> ids_below b s \<Longrightarrow> ids_below b s'"
  by (simp add: ids_below_def)

lemma ids_below_empty: "messages s = [] \<Longrightarrow> ids_below b s"
  by (simp add: ids_below_def)

lemma ids_below_step:
  assumes "ids_below b (ui w)" and "spaced b (e # es)"
  shows "\<exists>c. ids_below c (ui (step env w e)) \<and> spaced c es"
proof (cases e)
  case (OnChange v)
  with assms(2) have "spaced b es" by simp
  moreover have "ids_below b (ui (step env w e))"
    using _ assms(1) by (rule ids_below_frame) (simp add: OnChange)
  ultimately show ?thesis by blast
next
  case (OnSubmit t)
  with assms(2) have lt: "b < date_now t" and sp: "spaced (date_now t) es" by auto
  show ?thesis
  proof (cases "trim (inputMessage (ui w)) = [] \<or> isLoading (ui w)")
    case True
    from assms(1) have "ids_below (date_now t) (ui w)"
      by (rule ids_below_mono) (use lt in simp)
    moreover have "step env w e = w"
      by (simp add: OnSubmit sendMessage_begin_blocked [OF True])
    ultimately show ?thesis using sp by auto
  next
    case False
    then have i: "\<not> isLoading (ui w)" and n: "trim (inputMessage (ui w)) \<noteq> []" by auto
    have "ids_below (date_now t) ((ui w)\<lparr>messages := messages (ui w) @ [userMessage t (ui w)]\<rparr>)"
      using assms(1) lt by (rule ids_below_append) (simp add: userMessage_def)
    then have "ids_below (date_now t) (ui (step env w e))"
      by (rule ids_below_frame [rotated]) (simp add: OnSubmit sendMessage_begin_idle [OF i n])
    with sp show ?thesis by blast
  qed
next
  case (OnSettle t outcome)
  with assms(2) have le: "b \<le> date_now t" and sp: "spaced (date_now t + 1) es" by auto
  show ?thesis
  proof (cases "in_flight w")
    case Nil
    from assms(1) have "ids_below (date_now t + 1) (ui w)"
      by (rule ids_below_mono) (use le in simp)
    moreover have "step env w e = w"
      by (simp add: OnSettle Nil)
    ultimately show ?thesis using sp by auto
  next
    case (Cons req rest)
    from settle_appends_one [of t outcome "ui w"] obtain m
      where m: "messages (sendMessage_settle t outcome (ui w)) = messages (ui w) @ [m]"
        and k: "m = errorMessage t \<or> (\<exists>v. m = botMessage t v)" by blast
    from k have id: "msg_id m = toString (date_now t + 1)"
      by (auto simp add: errorMessage_def botMessage_def)
    have "ids_below (date_now t + 1) ((ui w)\<lparr>messages := messages (ui w) @ [m]\<rparr>)"
    proof (rule ids_below_append [OF assms(1)])
      show "b < date_now t + 1" using le by simp
      show "msg_id m = toString (date_now t + 1)" by (rule id)
    qed
    then have "ids_below (date_now t + 1) (ui (step env w e))"
      by (rule ids_below_frame [rotated]) (simp add: OnSettle Cons m)
    with sp show ?thesis by blast
  qed
next
  case OnClear
  with assms(2) have "spaced b es" by simp
  moreover have "ids_below b (ui (step env w e))"
    by (rule ids_below_empty) (simp add: OnClear clearChat_eq)
  ultimately show ?thesis by blast
qed

lemma ids_below_run:
  "ids_below b (ui w) \<Longrightarrow> spaced b es \<Longrightarrow> \<exists>c. ids_below c (ui (run env w es))"
proof (induction es arbitrary: w b)
  case Nil
  then show ?case by (auto simp add: run_def)
next
  case (Cons e es)
  from ids_below_step [OF Cons.prems, of env] obtain c
    where "ids_below c (ui (step env w e))" and "spaced c es" by blast
  then have "\<exists>d. ids_below d (ui (run env (step env w e) es))" by (rule Cons.IH)
  then show ?case by (simp add: run_def)
qed

text \<open>
  From an empty transcript, the ids stay pairwise distinct along every sequence of events
  whose clock readings are spaced: no reading is below an earlier one, and a submission
  that follows a settlement reads at least two more than the settlement did.
\<close>

theorem ids_distinct_when_spaced:
  assumes "messages (ui w) = []" and "spaced b es"
  shows "distinct (map msg_id (messages (ui (run env w es))))"
proof -
  from assms(1) have "ids_below b (ui w)" by (rule ids_below_empty)
  from ids_below_run [OF this assms(2), of env] show ?thesis by (auto simp add: ids_below_def)
qed

text \<open>B is submitted two milliseconds after the answer to A has settled.\<close>

theorem ids_distinct_when_spaced_witness:
  "messages (ui idle_world) = []
   \<and> spaced 0 [OnSubmit (at_ms 1000), OnSettle (at_ms 1000) (Resolved hi_there),
               OnChange (js ''B''), OnSubmit (at_ms 1002)]
   \<and> distinct (map msg_id (messages (ui (run None idle_world
        [OnSubmit (at_ms 1000), OnSettle (at_ms 1000) (Resolved hi_there),
         OnChange (js ''B''), OnSubmit (at_ms 1002)]))))
   \<and> length (messages (ui (run None idle_world
        [OnSubmit (at_ms 1000), OnSettle (at_ms 1000) (Resolved hi_there),
         OnChange (js ''B''), OnSubmit (at_ms 1002)]))) = 3"
proof -
  have h1: "messages (ui idle_world) = []" by (simp add: idle_world_def)
  have h2: "spaced 0 [OnSubmit (at_ms 1000), OnSettle (at_ms 1000) (Resolved hi_there),
               OnChange (js ''B''), OnSubmit (at_ms 1002)]"
    by (simp add: at_ms_def)
  have l: "length (messages (ui (run None idle_world
        [OnSubmit (at_ms 1000), OnSettle (at_ms 1000) (Resolved hi_there),
         OnChange (js ''B''), OnSubmit (at_ms 1002)]))) = 3"
    by (simp add: eval_defs idle_world_def hi_there_def)
  from ids_distinct_when_spaced [OF h1 h2, of None] h1 h2 l show ?thesis by blast
qed

end
